theory Spec2Isabelle
  imports Main "HOL-Library.Sublist"
begin

section \<open>JavaScript values, errors and string helpers\<close>

text \<open>
  The configuration in \<^verbatim>\<open>eleventy.config.js\<close> registers callbacks (collections, filters,
  transforms, compile steps) with the site generator. Each callback is embedded as a HOL
  function. Library calls (the HTML minifier, PostCSS, esbuild, the DOM parser, the glob
  matcher of the collection API, the locale formatter) are parameters of the embedding:
  their code is not part of the configuration file. A library call that throws is a value
  \<open>Inl e\<close> of a sum type.
\<close>

datatype js_value = JUndefined | JNull | JBool bool | JNumber int | JString string

datatype 'e js_error = TypeError | RangeError | LibError 'e

text \<open>
  \<^verbatim>\<open>String.prototype.endsWith\<close>: the search string is compared with the last
  \<open>length suf\<close> code units of \<open>s\<close>.
\<close>

definition endsWith :: "string \<Rightarrow> string \<Rightarrow> bool" where
  "endsWith s suf = (length suf \<le> length s \<and> drop (length s - length suf) s = suf)"

text \<open>
  The output path a transform receives is a string, or \<^verbatim>\<open>false\<close> when the template
  writes no file; \<open>None\<close> is that missing path. The guard \<^verbatim>\<open>path && path.endsWith(ext)\<close>
  is false for a missing path and for the empty string (both falsy).
\<close>

definition path_endsWith :: "string option \<Rightarrow> string \<Rightarrow> bool" where
  "path_endsWith path ext =
     (case path of None \<Rightarrow> False | Some p \<Rightarrow> p \<noteq> [] \<and> endsWith p ext)"

text \<open>\<^verbatim>\<open>Array.prototype.includes\<close> on an array of strings.\<close>

fun includes_js :: "'a list \<Rightarrow> 'a \<Rightarrow> bool" where
  "includes_js [] x = False"
| "includes_js (y # ys) x = (if y = x then True else includes_js ys x)"

section \<open>HTML minification (the \<^verbatim>\<open>html-minify\<close> transform)\<close>

record minify_options =
  collapseBooleanAttributes :: bool
  collapseWhitespace :: bool
  decodeEntities :: bool
  includeAutoGeneratedTags :: bool
  removeComments :: bool

definition html_minify_options :: minify_options where
  "html_minify_options =
     \<lparr> collapseBooleanAttributes = True,
       collapseWhitespace = True,
       decodeEntities = True,
       includeAutoGeneratedTags = False,
       removeComments = True \<rparr>"

text \<open>
  \<open>minify\<close> stands for \<^verbatim>\<open>htmlMin.minify\<close>; it may throw on markup it cannot parse.
\<close>

definition html_minify ::
  "(string \<Rightarrow> minify_options \<Rightarrow> 'e + string) \<Rightarrow> string \<Rightarrow> string option \<Rightarrow> 'e + string" where
  "html_minify minify content path =
     (if path_endsWith path ''.html'' then minify content html_minify_options
      else Inr content)"

section \<open>XML minification (the \<^verbatim>\<open>xmlMin\<close> transform)\<close>

text \<open>\<open>xmlmin\<close> stands for \<^verbatim>\<open>prettyData.pd.xmlmin\<close>, called with the content only.\<close>

definition xmlMin ::
  "(string \<Rightarrow> 'e + string) \<Rightarrow> string \<Rightarrow> string option \<Rightarrow> 'e + string" where
  "xmlMin xmlmin content path =
     (if path_endsWith path ''.xml'' then xmlmin content else Inr content)"

section \<open>CSS and JavaScript compile steps\<close>

datatype postcss_plugin = PostcssImport | PostcssMediaMinmax | Autoprefixer | PostcssCsso

definition styles :: "string list" where
  "styles =
     [''./src/styles/index.css'',
      ''./src/styles/light.css'',
      ''./src/styles/dark.css'']"

text \<open>
  \<open>postcss plugins content from_path\<close> stands for
  \<^verbatim>\<open>postcss(plugins).process(content, {from: path})\<close> followed by reading the \<^verbatim>\<open>css\<close>
  field of its result. The compile step returns nothing (\<open>None\<close>) for a path outside
  \<open>styles\<close>, and otherwise a render function.
\<close>

definition css_compile ::
  "(postcss_plugin list \<Rightarrow> string \<Rightarrow> string \<Rightarrow> 'e + string) \<Rightarrow> string \<Rightarrow> string
     \<Rightarrow> (unit \<Rightarrow> 'e + string) option" where
  "css_compile postcss content path =
     (if \<not> includes_js styles path then None
      else Some (\<lambda>_. postcss [PostcssImport, PostcssMediaMinmax, Autoprefixer, PostcssCsso]
                          content path))"

record esbuild_options =
  target :: string
  entryPoints :: "string list"
  minify_opt :: bool
  bundle_opt :: bool
  write_opt :: bool

record output_file =
  file_text :: string

text \<open>
  \<open>build\<close> stands for \<^verbatim>\<open>esbuild.build\<close>, returning the \<^verbatim>\<open>outputFiles\<close> of its result.
  Reading \<^verbatim>\<open>outputFiles[0].text\<close> of an empty array throws a \<^verbatim>\<open>TypeError\<close>.
\<close>

definition js_compile ::
  "(esbuild_options \<Rightarrow> 'e + output_file list) \<Rightarrow> string \<Rightarrow> string
     \<Rightarrow> (unit \<Rightarrow> 'e js_error + string) option" where
  "js_compile build content path =
     (if path \<noteq> ''./src/scripts/index.js'' then None
      else Some (\<lambda>_.
        case build \<lparr> target = ''es2020'', entryPoints = [path], minify_opt = True,
                     bundle_opt = True, write_opt = False \<rparr> of
          Inl e \<Rightarrow> Inl (LibError e)
        | Inr [] \<Rightarrow> Inl TypeError
        | Inr (f # _) \<Rightarrow> Inr (file_text f)))"

section \<open>Collections\<close>

text \<open>
  A collection item carries the path of its input file and its front-matter data; the
  \<^verbatim>\<open>draft\<close> field may hold any value, and is \<^verbatim>\<open>undefined\<close> when the file does not
  declare it.
\<close>

record item_data =
  draft :: js_value

record item =
  inputPath :: string
  data :: item_data

text \<open>
  The collection API the generator hands to a collection builder: the items of the site,
  in the generator's order, and its glob matcher (\<open>isGlobMatch api glob path\<close>).
  \<^verbatim>\<open>getFilteredByGlob\<close> keeps the items whose input path matches one of the globs; a
  single glob is passed as a list of one.
\<close>

record collection_api =
  all_items :: "item list"
  isGlobMatch :: "string \<Rightarrow> string \<Rightarrow> bool"

definition getFilteredByGlob :: "collection_api \<Rightarrow> string list \<Rightarrow> item list" where
  "getFilteredByGlob api globs =
     filter (\<lambda>i. list_ex (\<lambda>g. isGlobMatch api g (inputPath i)) globs) (all_items api)"

definition collections_articles :: string where
  "collections_articles = ''src/articles/*/index.md''"

definition collections_pages :: string where
  "collections_pages = ''src/pages/!(404)/index.njk''"

definition articles :: "collection_api \<Rightarrow> item list" where
  "articles collectionApi =
     filter (\<lambda>article. draft (data article) \<noteq> JBool True)
       (getFilteredByGlob collectionApi [collections_articles])"

definition sitemap :: "collection_api \<Rightarrow> item list" where
  "sitemap collectionApi =
     filter (\<lambda>article. draft (data article) \<noteq> JBool True)
       (getFilteredByGlob collectionApi [collections_articles, collections_pages])"

section \<open>HTML transform pipeline (the \<^verbatim>\<open>html-transform\<close> transform)\<close>

text \<open>
  A pass receives the window, the original content and the path, and mutates the window;
  the transform awaits its promise. In the embedding a pass returns the window as it has
  left it (\<open>Inr\<close>) or the error it has thrown (\<open>Inl\<close>), and the loop
  \<^verbatim>\<open>for (const transform of htmlTransforms) await transform(window, content, path)\<close>
  threads the window through the list, stopping at the first error.
\<close>

type_synonym ('w, 'e) html_pass = "'w \<Rightarrow> string \<Rightarrow> string \<Rightarrow> 'e + 'w"

fun run_transforms :: "('w, 'e) html_pass list \<Rightarrow> 'w \<Rightarrow> string \<Rightarrow> string \<Rightarrow> 'e + 'w" where
  "run_transforms [] window content path = Inr window"
| "run_transforms (transform # rest) window content path =
     (case transform window content path of
        Inl e \<Rightarrow> Inl e
      | Inr window' \<Rightarrow> run_transforms rest window' content path)"

text \<open>
  The five passes are modules of the repository that the configuration loads; they are
  parameters here, listed in the order of the declaration.
\<close>

definition htmlTransforms ::
  "('w, 'e) html_pass \<Rightarrow> ('w, 'e) html_pass \<Rightarrow> ('w, 'e) html_pass \<Rightarrow> ('w, 'e) html_pass
     \<Rightarrow> ('w, 'e) html_pass \<Rightarrow> ('w, 'e) html_pass list" where
  "htmlTransforms anchors demos figure images prism = [anchors, demos, figure, images, prism]"

text \<open>
  \<open>parseHTML\<close> stands for \<^verbatim>\<open>dom.parseHTML\<close> and \<open>toString\<close> for
  \<^verbatim>\<open>window.document.toString()\<close>.
\<close>

definition html_transform ::
  "(string \<Rightarrow> 'w) \<Rightarrow> ('w \<Rightarrow> string) \<Rightarrow> ('w, 'e) html_pass list \<Rightarrow> string \<Rightarrow> string option
     \<Rightarrow> 'e + string" where
  "html_transform parseHTML toString transforms content path =
     (case path of
        None \<Rightarrow> Inr content
      | Some p \<Rightarrow>
          if path_endsWith (Some p) ''.html''
          then (case run_transforms transforms (parseHTML content) content p of
                  Inl e \<Rightarrow> Inl e
                | Inr window \<Rightarrow> Inr (toString window))
          else Inr content)"

section \<open>Absolute links (the \<^verbatim>\<open>absolute\<close> filter)\<close>

text \<open>
  The filter replaces every match of the regular expression
  \<^verbatim>\<open>/(src="[^(https://)])|(src="\/)|(href="[^(https://)])|(href="\/)/g\<close>.
  Each alternative is a literal followed by one character. The class
  \<^verbatim>\<open>[^(https://)]\<close> admits every character except the parentheses, the letters
  \<^verbatim>\<open>h t p s\<close>, the colon and the slash. Strings are lists of code units; the expression
  looks at one code unit after the literal, whatever it encodes.
\<close>

definition neg_class :: "char \<Rightarrow> bool" where
  "neg_class c = (c \<notin> set ''(https://)'')"

text \<open>
  One alternative at the start of \<open>s\<close>: the matched text and the rest of the input.
\<close>

definition try_alt :: "string \<Rightarrow> (char \<Rightarrow> bool) \<Rightarrow> string \<Rightarrow> (string \<times> string) option" where
  "try_alt lit cls s =
     (if prefix lit s
      then (case drop (length lit) s of
              [] \<Rightarrow> None
            | c # rest \<Rightarrow> if cls c then Some (lit @ [c], rest) else None)
      else None)"

text \<open>Alternation: the first alternative that matches wins.\<close>

definition or_else :: "'a option \<Rightarrow> 'a option \<Rightarrow> 'a option" where
  "or_else a b = (case a of Some m \<Rightarrow> Some m | None \<Rightarrow> b)"

definition reg_exec :: "string \<Rightarrow> (string \<times> string) option" where
  "reg_exec s =
     or_else (try_alt ''src=\"'' neg_class s)
    (or_else (try_alt ''src=\"'' (\<lambda>c. c = CHR ''/'') s)
    (or_else (try_alt ''href=\"'' neg_class s)
             (try_alt ''href=\"'' (\<lambda>c. c = CHR ''/'') s)))"

lemma try_alt_Some:
  assumes "try_alt lit cls s = Some (m, rest)"
  shows "\<exists>c. m = lit @ [c] \<and> cls c \<and> s = lit @ c # rest"
proof -
  from assms have p: "prefix lit s"
    by (auto simp: try_alt_def split: if_splits)
  then obtain t where t: "s = lit @ t"
    by (auto simp: prefix_def)
  with assms p show ?thesis
    by (auto simp: try_alt_def split: list.splits if_splits)
qed

lemma reg_exec_Some:
  assumes "reg_exec s = Some (m, rest)"
  shows "\<exists>lit c. (lit = ''src=\"'' \<or> lit = ''href=\"'') \<and> m = lit @ [c]
           \<and> (neg_class c \<or> c = CHR ''/'') \<and> s = lit @ c # rest"
  using assms unfolding reg_exec_def or_else_def
  by (auto split: option.splits dest!: try_alt_Some)

text \<open>
  \<^verbatim>\<open>content.replace(reg, f)\<close> with the global flag: the input is scanned from the left;
  where the expression matches, the callback's result is emitted and the scan goes on
  after the match; elsewhere one code unit is copied. Every match is six or seven code
  units long, so the scan ends.
\<close>

function replace_all :: "(string \<Rightarrow> string) \<Rightarrow> string \<Rightarrow> string" where
  "replace_all f [] = []"
| "replace_all f (c # cs) =
     (case reg_exec (c # cs) of
        None \<Rightarrow> c # replace_all f cs
      | Some (m, rest) \<Rightarrow> f m @ replace_all f rest)"
  by pat_completeness auto
termination
proof (relation "measure (\<lambda>(f, s). length s)")
  show "wf (measure (\<lambda>(f :: string \<Rightarrow> string, s :: string). length s))"
    by simp
next
  fix f :: "string \<Rightarrow> string" and c cs
  show "((f, cs), (f, c # cs)) \<in> measure (\<lambda>(f, s). length s)"
    by simp
next
  fix f :: "string \<Rightarrow> string" and c cs x2 m rest
  assume "reg_exec (c # cs) = Some x2" and "(m, rest) = x2"
  then have "reg_exec (c # cs) = Some (m, rest)"
    by simp
  then obtain lit x where "c # cs = lit @ x # rest"
    using reg_exec_Some by blast
  then have "length (c # cs) = length lit + Suc (length rest)"
    by (metis length_append length_Cons)
  then show "((f, rest), (f, c # cs)) \<in> measure (\<lambda>(f, s). length s)"
    by simp
qed

text \<open>\<^verbatim>\<open>match.slice(0, -1)\<close> and \<^verbatim>\<open>match.slice(-1)\<close>.\<close>

definition slice_0_m1 :: "string \<Rightarrow> string" where
  "slice_0_m1 s = take (length s - 1) s"

definition slice_m1 :: "string \<Rightarrow> string" where
  "slice_m1 s = drop (length s - 1) s"

text \<open>The callback of the replacement, for the prefix \<open>pre\<close>.\<close>

definition replacer :: "string \<Rightarrow> string \<Rightarrow> string" where
  "replacer pre m =
     (if m = ''src=\"/'' \<or> m = ''href=\"/'' then slice_0_m1 m @ pre
      else slice_0_m1 m @ pre @ slice_m1 m)"

text \<open>
  The global data read from \<^verbatim>\<open>src/data/global.yml\<close>, and the article the filter is
  called with.
\<close>

record global_data =
  domain :: string

record article =
  url :: string

definition absolute :: "global_data \<Rightarrow> string \<Rightarrow> article \<Rightarrow> string" where
  "absolute global content article =
     replace_all (replacer (domain global @ url article)) content"

definition example_global :: global_data where
  "example_global = \<lparr> domain = ''https://example.com'' \<rparr>"

definition example_article :: article where
  "example_article = \<lparr> url = ''/posts/a/'' \<rparr>"

text \<open>
  A text \<open>w\<close> is a boundary when no match that starts before \<open>w\<close> can reach into it: it
  is empty, or its first character is one the class excludes, is not the slash and occurs
  in neither literal after the first position.
\<close>

definition boundary :: "string \<Rightarrow> bool" where
  "boundary w = (case w of [] \<Rightarrow> True | c # _ \<Rightarrow> c \<in> set ''(htps:)'')"

section \<open>Dates (the \<^verbatim>\<open>dateLong\<close>, \<^verbatim>\<open>dateShort\<close> and \<^verbatim>\<open>dateISO\<close> filters)\<close>

text \<open>
  A \<^verbatim>\<open>Date\<close> holds a time value: the milliseconds since 1 January 1970 UTC, or
  \<^verbatim>\<open>NaN\<close> for an invalid date (\<open>None\<close>). The calendar functions are those of the
  language standard, on integers.
\<close>

definition msPerDay :: int where
  "msPerDay = 86400000"

definition Day :: "int \<Rightarrow> int" where
  "Day t = t div msPerDay"

definition DaysInYear :: "int \<Rightarrow> int" where
  "DaysInYear y =
     (if y mod 4 \<noteq> 0 then 365
      else if y mod 100 \<noteq> 0 then 366
      else if y mod 400 \<noteq> 0 then 365
      else 366)"

definition DayFromYear :: "int \<Rightarrow> int" where
  "DayFromYear y =
     365 * (y - 1970) + (y - 1969) div 4 - (y - 1901) div 100 + (y - 1601) div 400"

lemma DayFromYear_step_aux:
  fixes a b c a' b' c' y :: int
  shows "a \<le> a' \<Longrightarrow> b' \<le> b + 1 \<Longrightarrow> c \<le> c' \<Longrightarrow>
     365 * (y - 1970) + a - b + c < 365 * (y + 1 - 1970) + a' - b' + c'"
  by (simp add: algebra_simps)

lemma DayFromYear_step: "DayFromYear y < DayFromYear (y + 1)"
proof -
  have a: "(y - 1969) div 4 \<le> (y + 1 - 1969) div 4"
    by (rule zdiv_mono1) simp_all
  have b: "(y + 1 - 1901) div 100 \<le> (y - 1901) div 100 + 1"
    by linarith
  have c: "(y - 1601) div 400 \<le> (y + 1 - 1601) div 400"
    by (rule zdiv_mono1) simp_all
  show ?thesis
    unfolding DayFromYear_def by (rule DayFromYear_step_aux [OF a b c])
qed

text \<open>
  \<^verbatim>\<open>YearFromTime(t)\<close> is the largest year \<open>y\<close> whose first day is not after the day of
  \<open>t\<close>. The search starts from a year that is not after it and steps up.
\<close>

function year_search :: "int \<Rightarrow> int \<Rightarrow> int" where
  "year_search d y = (if DayFromYear (y + 1) \<le> d then year_search d (y + 1) else y)"
  by pat_completeness auto
termination
proof (relation "measure (\<lambda>(d, y). nat (d + 1 - DayFromYear (y + 1)))")
  show "wf (measure (\<lambda>(d, y). nat (d + 1 - DayFromYear (y + 1))))"
    by simp
next
  fix d y :: int
  assume "DayFromYear (y + 1) \<le> d"
  then show "((d, y + 1), (d, y)) \<in> measure (\<lambda>(d, y). nat (d + 1 - DayFromYear (y + 1)))"
    using DayFromYear_step [of "y + 1"] by simp
qed

definition YearFromTime :: "int \<Rightarrow> int" where
  "YearFromTime t =
     year_search (Day t) (1970 + (if 0 \<le> Day t then Day t div 366 else Day t div 365))"

definition InLeapYear :: "int \<Rightarrow> int" where
  "InLeapYear t = (if DaysInYear (YearFromTime t) = 366 then 1 else 0)"

definition DayWithinYear :: "int \<Rightarrow> int" where
  "DayWithinYear t = Day t - DayFromYear (YearFromTime t)"

definition MonthFromTime :: "int \<Rightarrow> int" where
  "MonthFromTime t =
     (let d = DayWithinYear t; leap = InLeapYear t in
      if d < 31 then 0
      else if d < 59 + leap then 1
      else if d < 90 + leap then 2
      else if d < 120 + leap then 3
      else if d < 151 + leap then 4
      else if d < 181 + leap then 5
      else if d < 212 + leap then 6
      else if d < 243 + leap then 7
      else if d < 273 + leap then 8
      else if d < 304 + leap then 9
      else if d < 334 + leap then 10
      else 11)"

definition DateFromTime :: "int \<Rightarrow> int" where
  "DateFromTime t =
     (let d = DayWithinYear t; leap = InLeapYear t; m = MonthFromTime t in
      if m = 0 then d + 1
      else if m = 1 then d - 30
      else if m = 2 then d - 58 - leap
      else if m = 3 then d - 89 - leap
      else if m = 4 then d - 119 - leap
      else if m = 5 then d - 150 - leap
      else if m = 6 then d - 180 - leap
      else if m = 7 then d - 211 - leap
      else if m = 8 then d - 242 - leap
      else if m = 9 then d - 272 - leap
      else if m = 10 then d - 303 - leap
      else d - 333 - leap)"

definition HourFromTime :: "int \<Rightarrow> int" where
  "HourFromTime t = (t div 3600000) mod 24"

definition MinFromTime :: "int \<Rightarrow> int" where
  "MinFromTime t = (t div 60000) mod 60"

definition SecFromTime :: "int \<Rightarrow> int" where
  "SecFromTime t = (t div 1000) mod 60"

definition msFromTime :: "int \<Rightarrow> int" where
  "msFromTime t = t mod 1000"

definition digit :: "int \<Rightarrow> char" where
  "digit v = ''0123456789'' ! nat v"

text \<open>The last \<open>k\<close> decimal digits of \<open>v\<close>, padded with zeros.\<close>

fun pad_digits :: "nat \<Rightarrow> int \<Rightarrow> string" where
  "pad_digits 0 v = []"
| "pad_digits (Suc k) v = pad_digits k (v div 10) @ [digit (v mod 10)]"

text \<open>
  The year of the ISO format: four digits from 0 to 9999, otherwise a sign and six digits.
\<close>

definition iso_year :: "int \<Rightarrow> string" where
  "iso_year y =
     (if 0 \<le> y \<and> y \<le> 9999 then pad_digits 4 y
      else (if y < 0 then ''-'' else ''+'') @ pad_digits 6 \<bar>y\<bar>)"

text \<open>
  \<^verbatim>\<open>Date.prototype.toISOString\<close>: the UTC fields of the time value; an invalid date
  throws a \<^verbatim>\<open>RangeError\<close>.
\<close>

definition toISOString :: "int option \<Rightarrow> 'e js_error + string" where
  "toISOString tv =
     (case tv of
        None \<Rightarrow> Inl RangeError
      | Some t \<Rightarrow>
          Inr (iso_year (YearFromTime t) @ ''-'' @ pad_digits 2 (MonthFromTime t + 1) @ ''-''
               @ pad_digits 2 (DateFromTime t) @ ''T'' @ pad_digits 2 (HourFromTime t) @ '':''
               @ pad_digits 2 (MinFromTime t) @ '':'' @ pad_digits 2 (SecFromTime t) @ ''.''
               @ pad_digits 3 (msFromTime t) @ ''Z''))"

text \<open>
  \<^verbatim>\<open>String.prototype.split\<close> with a separator of one code unit. The result always has
  a first piece; it is returned apart from the pieces after it, so that reading element
  \<^verbatim>\<open>[0]\<close> is \<open>fst\<close>.
\<close>

fun split_js :: "char \<Rightarrow> string \<Rightarrow> string \<times> string list" where
  "split_js sep [] = ([], [])"
| "split_js sep (c # cs) =
     (case split_js sep cs of
        (piece, pieces) \<Rightarrow> if c = sep then ([], piece # pieces) else (c # piece, pieces))"

definition dateISO :: "int option \<Rightarrow> 'e js_error + string" where
  "dateISO v =
     (case toISOString v of
        Inl e \<Rightarrow> Inl e
      | Inr s \<Rightarrow> Inr (fst (split_js (CHR ''T'') s)))"

text \<open>
  Local time: \<open>tza t\<close> is the offset of the local time zone at \<open>t\<close>, in milliseconds.
  \<^verbatim>\<open>getFullYear\<close> is \<^verbatim>\<open>NaN\<close> on an invalid date, and a comparison with \<^verbatim>\<open>NaN\<close> is
  false.
\<close>

definition LocalTime :: "(int \<Rightarrow> int) \<Rightarrow> int \<Rightarrow> int" where
  "LocalTime tza t = t + tza t"

definition getFullYear :: "(int \<Rightarrow> int) \<Rightarrow> int option \<Rightarrow> int option" where
  "getFullYear tza tv =
     (case tv of None \<Rightarrow> None | Some t \<Rightarrow> Some (YearFromTime (LocalTime tza t)))"

definition js_less :: "int option \<Rightarrow> int option \<Rightarrow> bool" where
  "js_less a b =
     (case a of None \<Rightarrow> False | Some x \<Rightarrow> (case b of None \<Rightarrow> False | Some y \<Rightarrow> x < y))"

text \<open>
  The options object handed to \<^verbatim>\<open>toLocaleString\<close>; a field that is not set is \<open>None\<close>.
  \<open>toLocaleString v locale options\<close> stands for the formatter of the runtime, and \<open>now\<close>
  for the time value of \<^verbatim>\<open>new Date()\<close>.
\<close>

record format_options =
  dateStyle :: "string option"
  month :: "string option"
  day :: "string option"

definition dateLong ::
  "(int option \<Rightarrow> string \<Rightarrow> format_options \<Rightarrow> string) \<Rightarrow> int option \<Rightarrow> string" where
  "dateLong toLocaleString v =
     toLocaleString v ''en'' \<lparr> dateStyle = Some ''long'', month = None, day = None \<rparr>"

definition dateShort ::
  "(int \<Rightarrow> int) \<Rightarrow> int \<Rightarrow> (int option \<Rightarrow> string \<Rightarrow> format_options \<Rightarrow> string)
     \<Rightarrow> int option \<Rightarrow> string" where
  "dateShort tza now toLocaleString v =
     (let articleYear = getFullYear tza v;
          currentYear = getFullYear tza (Some now);
          dateFormat =
            (if js_less articleYear currentYear
             then \<lparr> dateStyle = Some ''long'', month = None, day = None \<rparr>
             else \<lparr> dateStyle = None, month = Some ''long'', day = Some ''numeric'' \<rparr>)
      in toLocaleString v ''en'' dateFormat)"

text \<open>A formatter that only names the options it was given, for evaluating the filters.\<close>

definition example_format :: "int option \<Rightarrow> string \<Rightarrow> format_options \<Rightarrow> string" where
  "example_format v locale opts =
     (case dateStyle opts of
        Some style \<Rightarrow> ''style '' @ style
      | None \<Rightarrow> (case month opts of Some m \<Rightarrow> ''month '' @ m | None \<Rightarrow> ''default''))"

section \<open>A small site, for evaluating the collections\<close>

definition example_glob_match :: "string \<Rightarrow> string \<Rightarrow> bool" where
  "example_glob_match g p =
     ((g = ''src/articles/*/index.md'' \<and> prefix ''src/articles/'' p \<and> suffix ''/index.md'' p)
      \<or> (g = ''src/pages/!(404)/index.njk'' \<and> prefix ''src/pages/'' p
           \<and> suffix ''/index.njk'' p \<and> p \<noteq> ''src/pages/404/index.njk''))"

definition published_article :: item where
  "published_article =
     \<lparr> inputPath = ''src/articles/a/index.md'', data = \<lparr> draft = JUndefined \<rparr> \<rparr>"

definition draft_article :: item where
  "draft_article =
     \<lparr> inputPath = ''src/articles/b/index.md'', data = \<lparr> draft = JBool True \<rparr> \<rparr>"

definition about_page :: item where
  "about_page =
     \<lparr> inputPath = ''src/pages/about/index.njk'', data = \<lparr> draft = JBool False \<rparr> \<rparr>"

definition example_site :: collection_api where
  "example_site =
     \<lparr> all_items = [published_article, draft_article, about_page],
       isGlobMatch = example_glob_match \<rparr>"

section \<open>Facts about the helpers\<close>

lemma endsWith_suffix: "endsWith s suf = suffix suf s"
proof
  assume "endsWith s suf"
  then have "s = take (length s - length suf) s @ suf"
    by (metis append_take_drop_id endsWith_def)
  then show "suffix suf s"
    by (metis suffixI)
next
  assume "suffix suf s"
  then obtain pre where "s = pre @ suf"
    by (auto simp: suffix_def)
  then show "endsWith s suf"
    by (simp add: endsWith_def)
qed

lemma path_endsWith_Some:
  "ext \<noteq> [] \<Longrightarrow> path_endsWith (Some p) ext = suffix ext p"
  by (auto simp: path_endsWith_def endsWith_suffix)

lemma path_endsWith_None: "path_endsWith None ext = False"
  by (simp add: path_endsWith_def)

lemma includes_set: "includes_js xs x = (x \<in> set xs)"
  by (induction xs) auto

section \<open>HTML minification: the claim\<close>

text \<open>
  C6. The \<^verbatim>\<open>html-minify\<close> transform hands the content to the minifier, with the options
  collapse boolean attributes, collapse whitespace, decode entities, remove comments and
  no auto-generated tags, exactly when the path is present and ends in \<^verbatim>\<open>.html\<close>; for
  every other path, the missing path included, it returns the content unchanged.
\<close>

theorem html_minify_iff_html_path:
  "html_minify minify content path =
     (if \<exists>p. path = Some p \<and> suffix ''.html'' p
      then minify content
             \<lparr> collapseBooleanAttributes = True, collapseWhitespace = True,
               decodeEntities = True, includeAutoGeneratedTags = False,
               removeComments = True \<rparr>
      else Inr content)"
  by (cases path)
     (simp_all add: html_minify_def html_minify_options_def path_endsWith_Some
        path_endsWith_None)

lemma xmlMin_iff_xml_path:
  "xmlMin xmlmin content path =
     (if \<exists>p. path = Some p \<and> suffix ''.xml'' p then xmlmin content else Inr content)"
  by (cases path) (simp_all add: xmlMin_def path_endsWith_Some path_endsWith_None)

section \<open>CSS and JavaScript compile steps: the claims\<close>

text \<open>
  C4. For a path that is none of the three allow-listed entry points the CSS compile step
  returns nothing; for each allow-listed path it returns a render function whose result is
  the content processed by the chain import inlining, media min-max, autoprefixing,
  minification, in that order, with the path as the source location.
\<close>

theorem css_compile_allow_list:
  "css_compile postcss content path =
     (if path = ''./src/styles/index.css'' \<or> path = ''./src/styles/light.css''
         \<or> path = ''./src/styles/dark.css''
      then Some (\<lambda>_. postcss [PostcssImport, PostcssMediaMinmax, Autoprefixer, PostcssCsso]
                          content path)
      else None)"
  unfolding css_compile_def includes_set styles_def by auto

text \<open>
  C5. The JavaScript compile step returns a render function only for the path
  \<^verbatim>\<open>./src/scripts/index.js\<close>, and that function returns the text of the first output file
  of a bundling, minifying build of that entry point; for every other path it returns
  nothing.
\<close>

theorem js_compile_single_entry:
  "js_compile build content path =
     (if path = ''./src/scripts/index.js''
      then Some (\<lambda>_.
        case build \<lparr> target = ''es2020'', entryPoints = [''./src/scripts/index.js''],
                     minify_opt = True, bundle_opt = True, write_opt = False \<rparr> of
          Inl e \<Rightarrow> Inl (LibError e)
        | Inr [] \<Rightarrow> Inl TypeError
        | Inr (f # _) \<Rightarrow> Inr (file_text f))
      else None)"
  unfolding js_compile_def by simp

section \<open>Collections: the claims\<close>

lemma count_list_filter:
  "count_list (filter P xs) x = (if P x then count_list xs x else 0)"
  by (induction xs) auto

lemma count_list_distinct: "distinct xs \<Longrightarrow> x \<in> set xs \<Longrightarrow> count_list xs x = 1"
  by (induction xs) (auto simp: count_list_0_iff)

lemma example_site_items:
  "distinct (all_items example_site)"
  "published_article \<in> set (all_items example_site)"
  "draft_article \<in> set (all_items example_site)"
  "about_page \<in> set (all_items example_site)"
  by (simp_all add: example_site_def published_article_def draft_article_def about_page_def)

lemma example_site_matches:
  "isGlobMatch example_site ''src/articles/*/index.md'' (inputPath published_article)"
  "isGlobMatch example_site ''src/pages/!(404)/index.njk'' (inputPath about_page)"
  by (simp_all add: example_site_def example_glob_match_def published_article_def
      about_page_def prefix_def suffix_def)

text \<open>
  C2. Let the collection API list every item once. An item whose \<^verbatim>\<open>draft\<close> field is
  \<^verbatim>\<open>true\<close> is in neither the articles nor the sitemap collection. An item whose
  \<^verbatim>\<open>draft\<close> field is anything else is, when its path matches the articles glob, exactly
  once in the articles collection and exactly once in the sitemap collection, and, when
  its path matches the pages glob, exactly once in the sitemap collection.
\<close>

theorem drafts_excluded_published_once:
  assumes "distinct (all_items api)" and "i \<in> set (all_items api)"
  shows "(draft (data i) = JBool True \<longrightarrow>
            i \<notin> set (articles api) \<and> i \<notin> set (sitemap api)) \<and>
         (draft (data i) \<noteq> JBool True
            \<and> isGlobMatch api ''src/articles/*/index.md'' (inputPath i) \<longrightarrow>
            count_list (articles api) i = 1 \<and> count_list (sitemap api) i = 1) \<and>
         (draft (data i) \<noteq> JBool True
            \<and> isGlobMatch api ''src/pages/!(404)/index.njk'' (inputPath i) \<longrightarrow>
            count_list (sitemap api) i = 1)"
  using assms
  by (simp add: articles_def sitemap_def getFilteredByGlob_def count_list_filter
      count_list_distinct collections_articles_def collections_pages_def)

theorem drafts_excluded_published_once_witness:
  "draft_article \<notin> set (articles example_site)
   \<and> draft_article \<notin> set (sitemap example_site)
   \<and> count_list (articles example_site) published_article = 1
   \<and> count_list (sitemap example_site) published_article = 1
   \<and> count_list (sitemap example_site) about_page = 1"
proof -
  have d: "draft (data draft_article) = JBool True"
    by (simp add: draft_article_def)
  have a: "draft (data published_article) \<noteq> JBool True"
    by (simp add: published_article_def)
  have p: "draft (data about_page) \<noteq> JBool True"
    by (simp add: about_page_def)
  show ?thesis
    using drafts_excluded_published_once [OF example_site_items(1) example_site_items(3)]
      drafts_excluded_published_once [OF example_site_items(1) example_site_items(2)]
      drafts_excluded_published_once [OF example_site_items(1) example_site_items(4)]
      d a p example_site_matches
    by simp
qed

text \<open>
  C10. Every item of the articles collection is an item of the sitemap collection: the
  sitemap asks for the articles glob together with the pages glob and applies the same
  draft filter.
\<close>

theorem articles_subset_sitemap: "set (articles api) \<subseteq> set (sitemap api)"
  by (auto simp: articles_def sitemap_def getFilteredByGlob_def)

section \<open>HTML transform pipeline: the claim\<close>

lemma run_transforms_append:
  "run_transforms (pre @ post) w c p =
     (case run_transforms pre w c p of
        Inl e \<Rightarrow> Inl e
      | Inr w' \<Rightarrow> run_transforms post w' c p)"
  by (induction pre arbitrary: w) (auto split: sum.splits)

text \<open>
  C3. For a path ending in \<^verbatim>\<open>.html\<close> the transform parses the content and runs the five
  passes anchors, demos, figure, images, prism in that order: each pass starts from the
  window the pass before it has returned, a pass that throws ends the transform with its
  error, and the result is the serialisation of the window the last pass returns.
\<close>

theorem html_transform_in_order:
  assumes "suffix ''.html'' p"
  shows "html_transform parseHTML toString (htmlTransforms anchors demos figure images prism)
           content (Some p) =
         (case anchors (parseHTML content) content p of Inl e \<Rightarrow> Inl e | Inr w1 \<Rightarrow>
         (case demos w1 content p of Inl e \<Rightarrow> Inl e | Inr w2 \<Rightarrow>
         (case figure w2 content p of Inl e \<Rightarrow> Inl e | Inr w3 \<Rightarrow>
         (case images w3 content p of Inl e \<Rightarrow> Inl e | Inr w4 \<Rightarrow>
         (case prism w4 content p of Inl e \<Rightarrow> Inl e | Inr w5 \<Rightarrow> Inr (toString w5))))))"
  using assms
  by (simp add: html_transform_def htmlTransforms_def path_endsWith_Some split: sum.splits)

theorem html_transform_in_order_witness:
  "suffix ''.html'' ''dist/index.html''
   \<and> html_transform (\<lambda>c. c) (\<lambda>w. w)
        (htmlTransforms (\<lambda>w c p. Inr (w @ ''1'')) (\<lambda>w c p. Inr (w @ ''2''))
           (\<lambda>w c p. Inr (w @ ''3'')) (\<lambda>w c p. Inr (w @ ''4''))
           (\<lambda>w c p. (Inr (w @ ''5'') :: unit + string)))
        ''x'' (Some ''dist/index.html'') = Inr ''x12345''"
proof -
  have h: "suffix ''.html'' ''dist/index.html''"
    by (simp add: suffix_def)
  show ?thesis
    using h html_transform_in_order [OF h, of "\<lambda>c. c" "\<lambda>w. w" "\<lambda>w c p. Inr (w @ ''1'')"
        "\<lambda>w c p. Inr (w @ ''2'')" "\<lambda>w c p. Inr (w @ ''3'')" "\<lambda>w c p. Inr (w @ ''4'')"
        "\<lambda>w c p. (Inr (w @ ''5'') :: unit + string)" "''x''"]
    by simp
qed

section \<open>Absolute links: the claim\<close>

lemma reg_exec_other_start:
  "c \<noteq> CHR ''s'' \<Longrightarrow> c \<noteq> CHR ''h'' \<Longrightarrow> reg_exec (c # s) = None"
  by (simp add: reg_exec_def or_else_def try_alt_def)

lemma replace_all_skip:
  "c \<noteq> CHR ''s'' \<Longrightarrow> c \<noteq> CHR ''h'' \<Longrightarrow> replace_all f (c # s) = c # replace_all f s"
  by (simp add: reg_exec_other_start)

lemma replace_all_match:
  "reg_exec (c # cs) = Some (m, rest) \<Longrightarrow>
     replace_all f (c # cs) = f m @ replace_all f rest"
  by simp

lemma replace_all_no_match:
  "reg_exec (c # cs) = None \<Longrightarrow> replace_all f (c # cs) = c # replace_all f cs"
  by simp

lemma try_alt_at_lit:
  "try_alt lit cls (lit @ z) =
     (case z of [] \<Rightarrow> None | c # r \<Rightarrow> if cls c then Some (lit @ [c], r) else None)"
  by (simp add: try_alt_def)

text \<open>
  Appending a text whose first character can neither continue a literal nor stand after
  one does not change what an alternative finds in the text before it.
\<close>

lemma try_alt_append:
  assumes t: "t \<noteq> []"
    and w: "\<And>c r. w = c # r \<Longrightarrow> c \<notin> set (tl lit) \<and> \<not> cls c"
  shows "try_alt lit cls (t @ w) = map_option (\<lambda>(m, r). (m, r @ w)) (try_alt lit cls t)"
proof (cases "prefix lit t")
  case True
  then obtain z where z: "t = lit @ z"
    by (auto simp: prefix_def)
  show ?thesis
  proof (cases z)
    case Nil
    have self: "try_alt lit cls lit = None"
      by (simp add: try_alt_def)
    moreover have "try_alt lit cls (lit @ w) = None"
      using w self by (cases w) (simp_all add: try_alt_at_lit)
    ultimately show ?thesis
      using z Nil by simp
  next
    case (Cons c r)
    with z show ?thesis
      by (simp add: try_alt_at_lit)
  qed
next
  case False
  then have none: "try_alt lit cls t = None"
    by (simp add: try_alt_def)
  have "\<not> prefix lit (t @ w)"
  proof
    assume "prefix lit (t @ w)"
    with False obtain us where us: "lit = t @ us" "prefix us w"
      by (auto simp: prefix_append)
    with False have "us \<noteq> []"
      by auto
    then obtain a us' where a: "us = a # us'"
      by (cases us) auto
    with us(2) obtain r where "w = a # r"
      by (cases w) auto
    moreover from t us(1) a have "a \<in> set (tl lit)"
      by (cases t) auto
    ultimately show False
      using w by blast
  qed
  with none show ?thesis
    by (simp add: try_alt_def)
qed

lemma map_option_or_else:
  "map_option g (or_else a b) = or_else (map_option g a) (map_option g b)"
  by (cases a) (simp_all add: or_else_def)

lemma boundary_Cons:
  "boundary (c # r) \<Longrightarrow>
     c \<notin> set (tl ''src=\"'') \<and> c \<notin> set (tl ''href=\"'') \<and> \<not> neg_class c \<and> c \<noteq> CHR ''/''"
  by (auto simp: boundary_def neg_class_def)

lemma reg_exec_append:
  assumes "t \<noteq> []" and "boundary w"
  shows "reg_exec (t @ w) = map_option (\<lambda>(m, r). (m, r @ w)) (reg_exec t)"
proof -
  have 1: "try_alt ''src=\"'' neg_class (t @ w) =
      map_option (\<lambda>(m, r). (m, r @ w)) (try_alt ''src=\"'' neg_class t)"
    using assms(2) by (intro try_alt_append [OF assms(1)]) (blast dest: boundary_Cons)
  have 2: "try_alt ''src=\"'' (\<lambda>c. c = CHR ''/'') (t @ w) =
      map_option (\<lambda>(m, r). (m, r @ w)) (try_alt ''src=\"'' (\<lambda>c. c = CHR ''/'') t)"
    using assms(2) by (intro try_alt_append [OF assms(1)]) (blast dest: boundary_Cons)
  have 3: "try_alt ''href=\"'' neg_class (t @ w) =
      map_option (\<lambda>(m, r). (m, r @ w)) (try_alt ''href=\"'' neg_class t)"
    using assms(2) by (intro try_alt_append [OF assms(1)]) (blast dest: boundary_Cons)
  have 4: "try_alt ''href=\"'' (\<lambda>c. c = CHR ''/'') (t @ w) =
      map_option (\<lambda>(m, r). (m, r @ w)) (try_alt ''href=\"'' (\<lambda>c. c = CHR ''/'') t)"
    using assms(2) by (intro try_alt_append [OF assms(1)]) (blast dest: boundary_Cons)
  show ?thesis
    unfolding reg_exec_def map_option_or_else 1 2 3 4 ..
qed

text \<open>The replacement of a text splits at a boundary.\<close>

lemma replace_all_append:
  "boundary w \<Longrightarrow> replace_all f (u @ w) = replace_all f u @ replace_all f w"
proof (induction f u rule: replace_all.induct)
  case (1 f)
  then show ?case by simp
next
  case (2 f c cs)
  have e: "reg_exec ((c # cs) @ w) = map_option (\<lambda>(m, r). (m, r @ w)) (reg_exec (c # cs))"
    using "2.prems" by (intro reg_exec_append) simp_all
  show ?case
  proof (cases "reg_exec (c # cs)")
    case None
    with e "2.IH"(1) "2.prems" show ?thesis by simp
  next
    case (Some mr)
    obtain m r where mr: "mr = (m, r)" by (cases mr)
    with Some e "2.IH"(2) "2.prems" show ?thesis by simp
  qed
qed

lemma replacer_slash:
  "replacer pre ''src=\"/'' = ''src=\"'' @ pre"
  "replacer pre ''href=\"/'' = ''href=\"'' @ pre"
  by (simp_all add: replacer_def slice_0_m1_def)

lemma rewrite_root_relative:
  "replace_all (replacer pre) (''src=\"/img.png\"'' @ v) =
     ''src=\"'' @ pre @ ''img.png\"'' @ replace_all (replacer pre) v"
proof -
  have "reg_exec (''src=\"/img.png\"'' @ v) = Some (''src=\"/'', ''img.png\"'' @ v)"
    by (simp add: reg_exec_def or_else_def try_alt_def neg_class_def)
  then have "replace_all (replacer pre) (''src=\"/img.png\"'' @ v) =
      replacer pre ''src=\"/'' @ replace_all (replacer pre) (''img.png\"'' @ v)"
    by simp
  also have "replace_all (replacer pre) (''img.png\"'' @ v) =
      ''img.png\"'' @ replace_all (replacer pre) v"
    by (simp add: reg_exec_other_start)
  finally show ?thesis
    by (simp add: replacer_slash)
qed

lemma boundary_src: "boundary (''src=\"'' @ v)"
  and boundary_href: "boundary (''href=\"'' @ v)"
  by (simp_all add: boundary_def)

lemma root_relative_occurrence:
  "absolute example_global (u @ ''src=\"/img.png\"'' @ v) example_article =
     absolute example_global u example_article
     @ ''src=\"https://example.com/posts/a/img.png\"''
     @ absolute example_global v example_article"
proof -
  have b: "boundary (''src=\"/img.png\"'' @ v)"
    by (simp add: boundary_def)
  show ?thesis
    unfolding absolute_def replace_all_append [OF b] rewrite_root_relative
    by (simp add: example_global_def example_article_def)
qed

lemma https_start:
  "replace_all f (''src=\"https://'' @ z) = ''src=\"https://'' @ replace_all f z"
  "replace_all f (''href=\"https://'' @ z) = ''href=\"https://'' @ replace_all f z"
  by (simp_all add: reg_exec_def or_else_def try_alt_def neg_class_def)

lemma replacer_keeps_literal:
  assumes "lit = ''src=\"'' \<or> lit = ''href=\"''"
  shows "\<exists>q. replacer pre (lit @ [x]) = lit @ q"
  using assms by (auto simp: replacer_def slice_0_m1_def)

lemma literal_quote:
  assumes "lit = ''src=\"'' \<or> lit = ''href=\"''"
  obtains l0 where "lit = l0 @ [CHR 0x22]" and "CHR 0x22 \<notin> set l0"
proof -
  from assms consider "lit = ''src='' @ [CHR 0x22]" | "lit = ''href='' @ [CHR 0x22]"
    by auto
  then show thesis
  proof cases
    case 1
    moreover have "CHR 0x22 \<notin> set ''src=''" by simp
    ultimately show thesis by (rule that)
  next
    case 2
    moreover have "CHR 0x22 \<notin> set ''href=''" by simp
    ultimately show thesis by (rule that)
  qed
qed

lemma first_occurrence:
  assumes "q \<notin> set a" and "q \<notin> set a'" and "a @ q # b = a' @ q # b'"
  shows "a = a' \<and> b = b'"
proof -
  have "takeWhile (\<lambda>c. c \<noteq> q) (a @ q # b) = a"
    using assms(1) by (auto simp: takeWhile_tail)
  moreover have "takeWhile (\<lambda>c. c \<noteq> q) (a' @ q # b') = a'"
    using assms(2) by (auto simp: takeWhile_tail)
  ultimately have "a = a'"
    using assms(3) by simp
  with assms(3) show ?thesis
    by simp
qed

text \<open>
  An attribute value holds no double quote, so a match that starts inside a value ends
  right after the closing quote; its replacement keeps the matched literal. The value and
  its closing quote therefore pass through as they are.
\<close>

lemma quoted_value:
  assumes "CHR 0x22 \<notin> set val"
  shows "\<exists>r. replace_all (replacer pre) (val @ CHR 0x22 # v) = val @ CHR 0x22 # r"
  using assms
proof (induction val)
  case Nil
  have "replace_all (replacer pre) (CHR 0x22 # v) = CHR 0x22 # replace_all (replacer pre) v"
    by (rule replace_all_skip) simp_all
  then show ?case
    by simp
next
  case (Cons c cs)
  show ?case
  proof (cases "reg_exec (c # (cs @ CHR 0x22 # v))")
    case None
    from Cons obtain r where
      "replace_all (replacer pre) (cs @ CHR 0x22 # v) = cs @ CHR 0x22 # r"
      by auto
    with replace_all_no_match [OF None, of "replacer pre"] show ?thesis
      by simp
  next
    case (Some mr)
    obtain m rest where mr: "mr = (m, rest)"
      by (cases mr)
    from Some mr have ex: "reg_exec (c # (cs @ CHR 0x22 # v)) = Some (m, rest)"
      by simp
    from reg_exec_Some [OF ex] obtain lit x where
      lit: "lit = ''src=\"'' \<or> lit = ''href=\"''" and m: "m = lit @ [x]"
      and eq: "c # (cs @ CHR 0x22 # v) = lit @ x # rest"
      by blast
    from lit obtain l0 where l0: "lit = l0 @ [CHR 0x22]" "CHR 0x22 \<notin> set l0"
      by (rule literal_quote)
    from eq l0(1) have "(c # cs) @ CHR 0x22 # v = l0 @ CHR 0x22 # (x # rest)"
      by simp
    with l0(2) Cons.prems have "c # cs = l0 \<and> v = x # rest"
      by (intro first_occurrence [where q = "CHR 0x22"])
    with l0(1) have whole: "lit = (c # cs) @ [CHR 0x22]"
      by simp
    from lit obtain q where q: "replacer pre (lit @ [x]) = lit @ q"
      using replacer_keeps_literal by blast
    have "replace_all (replacer pre) (c # (cs @ CHR 0x22 # v)) =
        replacer pre m @ replace_all (replacer pre) rest"
      by (rule replace_all_match [OF ex])
    also have "replacer pre m = lit @ q"
      by (simp only: m q)
    also have "lit @ q = ((c # cs) @ [CHR 0x22]) @ q"
      by (simp only: whole)
    finally have "replace_all (replacer pre) ((c # cs) @ CHR 0x22 # v) =
        (c # cs) @ CHR 0x22 # (q @ replace_all (replacer pre) rest)"
      by simp
    then show ?thesis
      by blast
  qed
qed

lemma absolute_keeps_https:
  assumes "CHR 0x22 \<notin> set val"
  shows "\<exists>r. absolute g (u @ ''src=\"https://'' @ val @ ''\"'' @ v) a =
           absolute g u a @ ''src=\"https://'' @ val @ ''\"'' @ r"
    and "\<exists>r. absolute g (u @ ''href=\"https://'' @ val @ ''\"'' @ v) a =
           absolute g u a @ ''href=\"https://'' @ val @ ''\"'' @ r"
proof -
  obtain r where
    r: "replace_all (replacer (domain g @ url a)) (val @ CHR 0x22 # v) = val @ CHR 0x22 # r"
    using quoted_value [OF assms] by blast
  have "absolute g (u @ ''src=\"https://'' @ val @ ''\"'' @ v) a =
           absolute g u a @ ''src=\"https://'' @ val @ ''\"'' @ r"
    unfolding absolute_def
    using replace_all_append [OF boundary_src, of "replacer (domain g @ url a)" u
        "''https://'' @ val @ ''\"'' @ v"]
      https_start(1) [of "replacer (domain g @ url a)" "val @ ''\"'' @ v"] r
    by simp
  then show "\<exists>r. absolute g (u @ ''src=\"https://'' @ val @ ''\"'' @ v) a =
           absolute g u a @ ''src=\"https://'' @ val @ ''\"'' @ r"
    by blast
  have "absolute g (u @ ''href=\"https://'' @ val @ ''\"'' @ v) a =
           absolute g u a @ ''href=\"https://'' @ val @ ''\"'' @ r"
    unfolding absolute_def
    using replace_all_append [OF boundary_href, of "replacer (domain g @ url a)" u
        "''https://'' @ val @ ''\"'' @ v"]
      https_start(2) [of "replacer (domain g @ url a)" "val @ ''\"'' @ v"] r
    by simp
  then show "\<exists>r. absolute g (u @ ''href=\"https://'' @ val @ ''\"'' @ v) a =
           absolute g u a @ ''href=\"https://'' @ val @ ''\"'' @ r"
    by blast
qed

text \<open>
  C1, as the code has it. With the domain \<^verbatim>\<open>https://example.com\<close> and the article URL
  \<^verbatim>\<open>/posts/a/\<close>, in every content an occurrence of \<^verbatim>\<open>src="/img.png"\<close> is rewritten to
  \<^verbatim>\<open>src="https://example.com/posts/a/img.png"\<close>: the domain followed by the article URL
  takes the place of the leading slash, and the text before and after the occurrence is
  filtered on its own. An occurrence of a \<^verbatim>\<open>src\<close> or \<^verbatim>\<open>href\<close> attribute whose
  double-quoted value starts with \<^verbatim>\<open>https://\<close> comes out unchanged, at its place after
  the filtered text before it.
\<close>

theorem absolute_rewrites_with_article_url:
  "absolute example_global (u @ ''src=\"/img.png\"'' @ v) example_article =
     absolute example_global u example_article
     @ ''src=\"https://example.com/posts/a/img.png\"''
     @ absolute example_global v example_article
   \<and> (CHR 0x22 \<notin> set val \<longrightarrow>
        (\<exists>r. absolute example_global (u @ ''src=\"https://'' @ val @ ''\"'' @ v) example_article =
           absolute example_global u example_article @ ''src=\"https://'' @ val @ ''\"'' @ r)
        \<and> (\<exists>r. absolute example_global (u @ ''href=\"https://'' @ val @ ''\"'' @ v) example_article =
           absolute example_global u example_article @ ''href=\"https://'' @ val @ ''\"'' @ r))"
  using root_relative_occurrence absolute_keeps_https by blast

theorem absolute_rewrites_with_article_url_witness:
  "CHR 0x22 \<notin> set ''cdn.example.org/i.png''
   \<and> absolute example_global ''<img src=\"/img.png\">'' example_article =
       ''<img src=\"https://example.com/posts/a/img.png\">''
   \<and> (\<exists>r. absolute example_global ''<img src=\"https://cdn.example.org/i.png\">''
          example_article =
        ''<img src=\"https://cdn.example.org/i.png\"'' @ r)"
proof -
  have h: "CHR 0x22 \<notin> set ''cdn.example.org/i.png''"
    by simp
  have before: "absolute example_global ''<img '' example_article = ''<img ''"
    by code_simp
  have after: "absolute example_global ''>'' example_article = ''>''"
    by code_simp
  show ?thesis
    using h absolute_rewrites_with_article_url
      [of "''<img ''" "''>''" "''cdn.example.org/i.png''"]
    by (simp add: before after)
qed

text \<open>
  The claim as the specification words it fails: the filter does not rewrite
  \<^verbatim>\<open>src="/img.png"\<close> to \<^verbatim>\<open>src="https://example.com/img.png"\<close>.
\<close>

theorem absolute_root_relative_counterexample:
  "absolute example_global ''src=\"/img.png\"'' example_article =
     ''src=\"https://example.com/posts/a/img.png\"''
   \<and> absolute example_global ''src=\"/img.png\"'' example_article \<noteq>
     ''src=\"https://example.com/img.png\"''"
proof -
  have "absolute example_global ''src=\"/img.png\"'' example_article =
      ''src=\"https://example.com/posts/a/img.png\"''"
    by code_simp
  then show ?thesis
    by simp
qed

section \<open>Dates: the claim\<close>

lemma DayFromYear_1970:
  "DayFromYear (1970 + n) = 365 * n + (n + 1) div 4 - (n + 69) div 100 + (n + 369) div 400"
  by (simp add: DayFromYear_def add.commute)

lemma DayFromYear_upper_aux:
  fixes a b c n :: int
  shows "4 * a \<le> n + 1 \<Longrightarrow> n - 30 \<le> 100 * b \<Longrightarrow> 400 * c \<le> n + 369 \<Longrightarrow> 1 \<le> n \<Longrightarrow>
     365 * n + a - b + c \<le> 366 * n"
  by linarith

lemma DayFromYear_lower_aux:
  fixes a b c n :: int
  shows "4 * a \<le> n + 1 \<Longrightarrow> n - 30 \<le> 100 * b \<Longrightarrow> 400 * c \<le> n + 369 \<Longrightarrow> n < - 1 \<Longrightarrow>
     365 * n + a - b + c \<le> 365 * n"
  by linarith

lemma DayFromYear_upper_nonneg: "0 \<le> n \<Longrightarrow> DayFromYear (1970 + n) \<le> 366 * n"
proof -
  assume n: "0 \<le> n"
  have a: "4 * ((n + 1) div 4) \<le> n + 1" by linarith
  have b: "n - 30 \<le> 100 * ((n + 69) div 100)" by linarith
  have c: "400 * ((n + 369) div 400) \<le> n + 369" by linarith
  show ?thesis
  proof (cases "n = 0")
    case True
    then show ?thesis by (simp add: DayFromYear_def)
  next
    case False
    with n have "1 \<le> n" by simp
    then show ?thesis
      unfolding DayFromYear_1970 by (rule DayFromYear_upper_aux [OF a b c])
  qed
qed

lemma DayFromYear_upper_neg: "n < 0 \<Longrightarrow> DayFromYear (1970 + n) \<le> 365 * n"
proof -
  assume n: "n < 0"
  have a: "4 * ((n + 1) div 4) \<le> n + 1" by linarith
  have b: "n - 30 \<le> 100 * ((n + 69) div 100)" by linarith
  have c: "400 * ((n + 369) div 400) \<le> n + 369" by linarith
  show ?thesis
  proof (cases "n = - 1")
    case True
    then show ?thesis by (simp add: DayFromYear_def)
  next
    case False
    with n have "n < - 1" by simp
    then show ?thesis
      unfolding DayFromYear_1970 by (rule DayFromYear_lower_aux [OF a b c])
  qed
qed

lemma year_search_spec:
  "DayFromYear y \<le> d \<Longrightarrow>
     DayFromYear (year_search d y) \<le> d \<and> d < DayFromYear (year_search d y + 1)"
proof (induction d y rule: year_search.induct)
  case (1 d y)
  show ?case
  proof (cases "DayFromYear (y + 1) \<le> d")
    case True
    then show ?thesis
      using "1.IH" by (subst (1 2) year_search.simps) simp
  next
    case False
    then show ?thesis
      using "1.prems" by (subst (1 2) year_search.simps) simp
  qed
qed

lemma year_lower_bound:
  "DayFromYear (1970 + (if 0 \<le> d then d div 366 else d div 365)) \<le> d"
proof (cases "0 \<le> d")
  case True
  then have "0 \<le> d div 366" by simp
  then have "DayFromYear (1970 + d div 366) \<le> 366 * (d div 366)"
    by (rule DayFromYear_upper_nonneg)
  also have "\<dots> \<le> d" by simp
  finally show ?thesis using True by simp
next
  case False
  then have "d div 365 < 0" by simp
  then have "DayFromYear (1970 + d div 365) \<le> 365 * (d div 365)"
    by (rule DayFromYear_upper_neg)
  also have "\<dots> \<le> d" by simp
  finally show ?thesis using False by simp
qed

text \<open>
  The search computes the year of the standard: the year whose first day is not after the
  day of \<open>t\<close> and whose successor starts after it.
\<close>

lemma YearFromTime_spec:
  "DayFromYear (YearFromTime t) \<le> Day t \<and> Day t < DayFromYear (YearFromTime t + 1)"
  unfolding YearFromTime_def by (rule year_search_spec [OF year_lower_bound])

lemma split_js_first:
  "sep \<notin> set pre \<Longrightarrow> fst (split_js sep (pre @ sep # rest)) = pre"
  by (induction pre) (auto split: prod.splits)

lemma Day_2024_03_05:
  "1709596800000 \<le> t \<Longrightarrow> t < 1709683200000 \<Longrightarrow> Day t = Day 1709596800000"
  unfolding Day_def msPerDay_def by simp

lemma calendar_by_day:
  assumes "Day t = Day t'"
  shows "YearFromTime t = YearFromTime t'" "MonthFromTime t = MonthFromTime t'"
    "DateFromTime t = DateFromTime t'"
  using assms
  by (simp_all add: YearFromTime_def MonthFromTime_def DateFromTime_def DayWithinYear_def
      InLeapYear_def)

lemma calendar_2024_03_05:
  "YearFromTime 1709596800000 = 2024" "MonthFromTime 1709596800000 = 2"
  "DateFromTime 1709596800000 = 5"
  by code_simp+

lemma dateISO_2024_03_05:
  assumes "1709596800000 \<le> t" and "t < 1709683200000"
  shows "dateISO (Some t) = Inr ''2024-03-05''"
proof -
  define time where
    "time = pad_digits 2 (HourFromTime t) @ '':'' @ pad_digits 2 (MinFromTime t) @ '':''
       @ pad_digits 2 (SecFromTime t) @ ''.'' @ pad_digits 3 (msFromTime t) @ ''Z''"
  have d: "Day t = Day 1709596800000"
    using assms by (rule Day_2024_03_05)
  have y: "iso_year (YearFromTime t) = ''2024''"
    unfolding calendar_by_day(1) [OF d] calendar_2024_03_05 by code_simp
  have m: "pad_digits 2 (MonthFromTime t + 1) = ''03''"
    unfolding calendar_by_day(2) [OF d] calendar_2024_03_05 by code_simp
  have dd: "pad_digits 2 (DateFromTime t) = ''05''"
    unfolding calendar_by_day(3) [OF d] calendar_2024_03_05 by code_simp
  have iso: "toISOString (Some t) = Inr (''2024-03-05'' @ CHR ''T'' # time)"
    by (simp add: toISOString_def y m dd time_def)
  have "CHR ''T'' \<notin> set ''2024-03-05''"
    by simp
  then have "fst (split_js (CHR ''T'') (''2024-03-05'' @ CHR ''T'' # time)) = ''2024-03-05''"
    by (rule split_js_first)
  then show ?thesis
    by (simp only: dateISO_def iso sum.case)
qed

lemma example_years:
  "getFullYear (\<lambda>t. 0) (Some 1762041600000) = Some 2025"
  "getFullYear (\<lambda>t. 0) (Some 1740000000000) = Some 2025"
  "getFullYear (\<lambda>t. 0) (Some 1709596800000) = Some 2024"
  "YearFromTime (LocalTime (\<lambda>t. 0) 1762041600000) = 2025"
  by code_simp+

text \<open>
  C7. When the year of the date and the year of the current time, both in local time,
  are the same, \<^verbatim>\<open>dateShort\<close> formats the date with the options month (long) and day
  (numeric), which hold no year; when the year of the date is earlier, it formats the date
  with the long date style. For every time value within the UTC day 5 March 2024,
  \<^verbatim>\<open>dateISO\<close> returns the string \<^verbatim>\<open>2024-03-05\<close>.
\<close>

theorem date_filters:
  "(getFullYear tza v = getFullYear tza (Some now) \<longrightarrow>
      dateShort tza now toLocaleString v =
        toLocaleString v ''en''
          \<lparr> dateStyle = None, month = Some ''long'', day = Some ''numeric'' \<rparr>)
   \<and> (\<forall>y. getFullYear tza v = Some y \<and> y < YearFromTime (LocalTime tza now) \<longrightarrow>
      dateShort tza now toLocaleString v =
        toLocaleString v ''en'' \<lparr> dateStyle = Some ''long'', month = None, day = None \<rparr>)
   \<and> (\<forall>t. 1709596800000 \<le> t \<and> t < 1709683200000 \<longrightarrow>
      dateISO (Some t) = Inr ''2024-03-05'')"
  by (auto simp: dateShort_def getFullYear_def js_less_def Let_def dateISO_2024_03_05
      split: option.splits)

theorem date_filters_witness:
  "dateShort (\<lambda>t. 0) 1762041600000 example_format (Some 1740000000000) = ''month long''
   \<and> dateShort (\<lambda>t. 0) 1762041600000 example_format (Some 1709596800000) = ''style long''
   \<and> (dateISO (Some 1709640000000) :: unit js_error + string) = Inr ''2024-03-05''"
proof -
  note same = date_filters [of "\<lambda>t. 0" "Some 1740000000000" 1762041600000 example_format]
  note earlier = date_filters [of "\<lambda>t. 0" "Some 1709596800000" 1762041600000 example_format]
  have f1: "example_format (Some 1740000000000) ''en''
          \<lparr> dateStyle = None, month = Some ''long'', day = Some ''numeric'' \<rparr> = ''month long''"
    by (simp add: example_format_def)
  have f2: "example_format (Some 1709596800000) ''en''
          \<lparr> dateStyle = Some ''long'', month = None, day = None \<rparr> = ''style long''"
    by (simp add: example_format_def)
  have y: "(2024 :: int) < 2025"
    by simp
  from same have 1: "dateShort (\<lambda>t. 0) 1762041600000 example_format (Some 1740000000000) =
      ''month long''"
    unfolding example_years f1 by blast
  from earlier y have 2: "dateShort (\<lambda>t. 0) 1762041600000 example_format (Some 1709596800000) =
      ''style long''"
    unfolding example_years f2 by blast
  have b: "(1709596800000 :: int) \<le> 1709640000000 \<and> (1709640000000 :: int) < 1709683200000"
    by simp
  from same b have 3: "(dateISO (Some 1709640000000) :: unit js_error + string) = Inr ''2024-03-05''"
    by blast
  show ?thesis
    using 1 2 3 by blast
qed

end
